theory Spec2Isabelle
  imports Complex_Main
begin

section \<open>The pendulum export example: \<open>template_project_offline/my_example.cpp\<close>\<close>

text \<open>
  The repository is one C++ function, \<open>main\<close>, which drives the Chrono physics library and
  its POV-Ray exporter. The library is not part of the repository, so the embedding keeps
  two things apart:

  \<^item> what \<open>main\<close> does: the library calls it makes, with their arguments, in the order of the
    source, the console output and the exit status. A run is recorded as the list of these
    calls (type \<open>call\<close>);
  \<^item> what the library answers: the values the source reads back and branches on. They are
    the fields of the record \<open>library\<close>, and every theorem quantifies over them.

  A value of type \<open>double\<close> is modelled as the rational number it denotes (type \<open>rat\<close>).
  \<open>main\<close> does no arithmetic of its own: it hands literals to the library, written here
  as the fractions of the source text, and compares the time with 1.5, which is a
  \<open>double\<close>, so the comparison is exact. Where the library computes with doubles, the
  function \<open>double\<close> below rounds the exact result to the nearest \<open>double\<close>. The simulated
  time of the \<open>ChSystemNSC\<close> object is the only library state the source branches on; it is
  set by the constructor, read by \<open>GetChTime\<close> and changed by \<open>DoStepDynamics\<close> only.
\<close>

subsection \<open>Values passed to the library\<close>

type_synonym ChVector3d = "rat \<times> rat \<times> rat"

datatype ChColor = ChColor rat rat rat

text \<open>\<open>ChFrame<>(v)\<close>: a frame at position \<open>v\<close>; the source never passes a rotation.\<close>

datatype ChFrame = ChFrame ChVector3d

text \<open>\<open>ChCollisionSystem::Type\<close>; the source names \<open>BULLET\<close> only.\<close>

datatype collision_type = BULLET

text \<open>The objects the source holds through shared pointers, named as its variables.\<close>

datatype obj = floorBody | pendulumBody | sphericalLink | camera

text \<open>One operand of \<open>std::cout <<\<close>: a string or a \<open>double\<close>.\<close>

datatype cout_item = Str string | Dbl rat

subsection \<open>Rounding to a double\<close>

text \<open>
  IEEE 754 binary64, round to nearest, ties to even: a number \<open>x\<close> with
  \<open>2 ^ e \<le> \<bar>x\<bar> < 2 ^ (e + 1)\<close> is rounded to the nearest multiple of \<open>2 ^ (e - 52)\<close>, and
  of two equally near multiples to the even one. Overflow and subnormal numbers are left
  out: the times of this program lie between 0 and 2, the step between \<open>2 ^ - 7\<close> and
  \<open>2 ^ - 6\<close>.
\<close>

fun log2_floor :: "nat \<Rightarrow> nat" where
  "log2_floor n = (if n < 2 then 0 else Suc (log2_floor (n div 2)))"

declare log2_floor.simps [simp del]

definition pow2 :: "int \<Rightarrow> rat" where
  "pow2 e = (if 0 \<le> e then 2 ^ nat e else 1 / 2 ^ nat (- e))"

text \<open>The exponent \<open>e\<close> of a positive number: \<open>2 ^ e \<le> x < 2 ^ (e + 1)\<close>.\<close>

definition exponent :: "rat \<Rightarrow> int" where
  "exponent x =
     (if 1 \<le> x then int (log2_floor (nat \<lfloor>x\<rfloor>))
      else (let k = int (log2_floor (nat \<lfloor>1 / x\<rfloor>))
            in if x = pow2 (- k) then - k else - k - 1))"

definition round_half_even :: "rat \<Rightarrow> int" where
  "round_half_even x =
     (let n = \<lfloor>x\<rfloor>; r = x - of_int n
      in if r < 1 / 2 then n
         else if 1 / 2 < r then n + 1
         else if even n then n else n + 1)"

definition double :: "rat \<Rightarrow> rat" where
  "double x =
     (if x = 0 then 0
      else (let u = pow2 (exponent \<bar>x\<bar> - 52)
            in sgn x * of_int (round_half_even (\<bar>x\<bar> / u)) * u))"

subsection \<open>Library calls\<close>

text \<open>
  One constructor for each library operation the source mentions. A call that returns a
  value the source uses carries that value last (\<open>GetChronoOutputPath\<close>,
  \<open>create_directory\<close>, \<open>GetChronoDataFile\<close>, \<open>GetChTime\<close>). A method of a body, link,
  camera or visual shape carries the object it is called on first. \<open>cout\<close> is one output
  line: the operands of \<open><<\<close> in order, ended by \<open>std::endl\<close>. \<open>Spin\<close> is the
  \<open>ChRealtimeStepTimer::Spin\<close> of the commented-out loop of the source.
\<close>

datatype call =
    GetChronoOutputPath string
  | create_directory string bool
  | cout "cout_item list"
  | SetChronoDataPath string
  | ChSystemNSC
  | ChPovRay
  | GetChronoDataFile string string
  | SetTemplateFile string
  | SetBasePath string
  | SetLight ChVector3d ChColor bool
  | SetCustomPOVcommandsScript string
  | SetCollisionSystemType collision_type
  | ChBodyEasyBox obj rat rat rat rat bool bool
  | SetPos obj ChVector3d
  | SetFixed obj bool
  | SetLinVel obj ChVector3d
  | Add obj
  | ChLinkMateGeneric obj bool bool bool bool bool bool
  | Initialize obj obj obj bool ChFrame ChFrame
  | GetVisualShape obj nat
  | SetColor obj nat ChColor
  | SetTexture obj nat string rat rat
  | ChCamera obj
  | SetAngle obj rat
  | SetPosition obj ChVector3d
  | SetAimPoint obj ChVector3d
  | SetUpVector obj ChVector3d
  | SetCamera ChVector3d ChVector3d rat
  | AddAll
  | ChRealtimeStepTimer
  | Spin rat
  | ExportScript
  | GetChTime rat
  | DoStepDynamics rat
  | ExportData

subsection \<open>What the library answers\<close>

text \<open>
  \<^item> \<open>chrono_output_path\<close>: the string \<open>GetChronoOutputPath()\<close> returns;
  \<^item> \<open>directory_created p\<close>: what \<open>filesystem::create_directory\<close> returns for the path \<open>p\<close>;
  \<^item> \<open>CHRONO_DATA_DIR\<close>: the macro of that name (set by the build, absent from the source);
  \<open>chrono_data_file f\<close>: what \<open>GetChronoDataFile(f)\<close> returns;
  \<^item> \<open>initial_time\<close>: the simulated time of a newly constructed \<open>ChSystemNSC\<close>;
  \<^item> \<open>stepped_time h t\<close>: the simulated time after \<open>DoStepDynamics(h)\<close> called at time \<open>t\<close>.
\<close>

record library =
  chrono_output_path :: string
  directory_created :: "string \<Rightarrow> bool"
  CHRONO_DATA_DIR :: string
  chrono_data_file :: "string \<Rightarrow> string"
  initial_time :: rat
  stepped_time :: "rat \<Rightarrow> rat \<Rightarrow> rat"

subsection \<open>The program\<close>

text \<open>Line 35: \<open>out_dir = GetChronoOutputPath() + "POVRAY_1"\<close>.\<close>

definition out_dir :: "library \<Rightarrow> string" where
  "out_dir L = chrono_output_path L @ ''POVRAY_1''"

text \<open>
  Lines 69 to 79: the string literal handed to \<open>SetCustomPOVcommandsScript\<close>. A backslash
  at the end of a source line splices the next line on, so the literal holds the lines one
  after another with no line break; three of them start with a tab character.
\<close>

definition tab :: string where
  "tab = [CHR 0x09]"

definition custom_pov_commands :: string where
  "custom_pov_commands =
     '' '' @
     tab @ ''light_source {   '' @
     ''      <2, 10, -3>  '' @
     tab @ ''  color rgb<1.2,1.2,1.2> '' @
     ''      area_light <4, 0, 0>, <0, 0, 4>, 8, 8 '' @
     ''      adaptive 1 '' @
     ''      jitter'' @
     ''    } '' @
     tab @ ''object{ Grid(1,0.02, rgb<0.7,0.8,0.8>, rgbt<1,1,1,1>) rotate <0, 0, 90>  } '' @
     ''    ''"

text \<open>Lines 41 to 85: data path, system, exporter and its settings, collision system.\<close>

definition exporter_setup :: "library \<Rightarrow> call list" where
  "exporter_setup L =
     [SetChronoDataPath (CHRONO_DATA_DIR L),
      ChSystemNSC,
      ChPovRay,
      GetChronoDataFile ''POVRay_chrono_template.pov''
        (chrono_data_file L ''POVRay_chrono_template.pov''),
      SetTemplateFile (chrono_data_file L ''POVRay_chrono_template.pov''),
      SetBasePath (out_dir L),
      SetLight (- 3, 4, 2) (ChColor 0.15 0.15 0.12) False,
      SetCustomPOVcommandsScript custom_pov_commands,
      SetCollisionSystemType BULLET]"

text \<open>
  Lines 91 to 130: the floor, the pendulum, the link between them, then colour and
  texture. In line 130 the object expression \<open>floorBody->GetVisualShape(0)\<close> is evaluated
  before the argument \<open>GetChronoDataFile(...)\<close> (the order C++17 fixes).
\<close>

definition pendulum_scene :: "library \<Rightarrow> call list" where
  "pendulum_scene L =
     [ChBodyEasyBox floorBody 10 2 10 3000 True False,
      SetPos floorBody (0, - 2, 0),
      SetFixed floorBody True,
      Add floorBody,
      ChBodyEasyBox pendulumBody 0.5 2 0.5 3000 True False,
      SetPos pendulumBody (0, 3, 0),
      SetLinVel pendulumBody (1, 0, 0),
      Add pendulumBody,
      ChLinkMateGeneric sphericalLink True True True False False False,
      Initialize sphericalLink pendulumBody floorBody False
        (ChFrame (0, 4, 0)) (ChFrame (0, 4, 0)),
      Add sphericalLink,
      GetVisualShape pendulumBody 0,
      SetColor pendulumBody 0 (ChColor 0.2 0.5 0.25),
      GetVisualShape floorBody 0,
      GetChronoDataFile ''textures/checker1.png''
        (chrono_data_file L ''textures/checker1.png''),
      SetTexture floorBody 0 (chrono_data_file L ''textures/checker1.png'') 2 2]"

text \<open>Lines 134 to 144: the camera object, the exporter's camera, \<open>AddAll\<close>.\<close>

definition camera_setup :: "call list" where
  "camera_setup =
     [ChCamera camera,
      SetAngle camera 50,
      SetPosition camera (0, 3, - 10),
      SetAimPoint camera (0, 1, 0),
      SetUpVector camera (0, - 1, 0),
      SetCamera (0, 3, - 10) (0, 1, 0) 50,
      AddAll]"

text \<open>Line 159: \<open>double step_size = 5e-3\<close>. No later line of the source reads it.\<close>

definition step_size :: rat where
  "step_size = 0.005"

text \<open>
  The state the loop works on: the simulated time of \<open>sys\<close> and the calls made so far.
\<close>

record sim =
  ch_time :: rat
  calls :: "call list"

text \<open>
  Lines 177 to 183, one pass through the loop body: the step, the output line with the
  time read back after the step, the data export.
\<close>

definition loop_body :: "library \<Rightarrow> sim \<Rightarrow> sim" where
  "loop_body L s =
     (let t = stepped_time L 0.01 (ch_time s) in
      \<lparr>ch_time = t,
       calls = calls s @
         [DoStepDynamics 0.01, GetChTime t, cout [Str ''time= '', Dbl t], ExportData]\<rparr>)"

text \<open>Line 176, the loop condition \<open>sys.GetChTime() < 1.5\<close>: the read is a library call.\<close>

definition read_time :: "sim \<Rightarrow> sim" where
  "read_time s = s\<lparr>calls := calls s @ [GetChTime (ch_time s)]\<rparr>"

text \<open>
  Lines 176 to 184. Whether the loop ends depends on the library, so the model follows it
  for at most \<open>fuel\<close> passes through the body. The result is the state reached and a flag:
  \<open>True\<close> when the condition was found false (the loop has ended), \<open>False\<close> when the
  condition still held after \<open>fuel\<close> passes (the run goes on beyond what was followed).
\<close>

fun sim_loop :: "library \<Rightarrow> nat \<Rightarrow> sim \<Rightarrow> bool \<times> sim" where
  "sim_loop L 0 s =
     (if ch_time s < 1.5 then (False, read_time s) else (True, read_time s))"
| "sim_loop L (Suc fuel) s =
     (if ch_time s < 1.5 then sim_loop L fuel (loop_body L (read_time s))
      else (True, read_time s))"

text \<open>
  Lines 35 and 36: the output directory's name and the attempt to create it. The second
  call carries what \<open>create_directory\<close> returned.
\<close>

definition directory_setup :: "library \<Rightarrow> call list" where
  "directory_setup L =
     [GetChronoOutputPath (chrono_output_path L),
      create_directory (out_dir L) (directory_created L (out_dir L))]"

text \<open>
  Lines 35 to 174, when the directory was created: every call made before the loop. Line
  158 constructs the timer, line 174 writes the export script.
\<close>

definition before_loop :: "library \<Rightarrow> call list" where
  "before_loop L =
     directory_setup L @ exporter_setup L @ pendulum_scene L @ camera_setup @
     [ChRealtimeStepTimer, ExportScript]"

text \<open>
  \<open>main\<close>, lines 32 to 187. The result is the exit status and the calls made; the status
  is \<open>None\<close> when the loop had not ended after \<open>fuel\<close> passes, and the calls are then those
  made up to that point. \<open>argc\<close> and \<open>argv\<close> are the parameters of the source.
\<close>

definition main :: "library \<Rightarrow> nat \<Rightarrow> int \<Rightarrow> string list \<Rightarrow> int option \<times> call list" where
  "main L fuel argc argv =
     (if \<not> directory_created L (out_dir L)
      then (Some 1,
            directory_setup L @ [cout [Str ''Error creating directory '', Str (out_dir L)]])
      else
        (case sim_loop L fuel \<lparr>ch_time = initial_time L, calls = before_loop L\<rparr> of
           (ended, s) \<Rightarrow> (if ended then Some 0 else None, calls s)))"

subsection \<open>Reading a run\<close>

text \<open>
  The calls of one pass through the loop that finds the time \<open>t\<close> and leaves it at \<open>t'\<close>:
  the read of the loop condition, the step, the read for the output line, the line, the
  data export.
\<close>

definition pass_calls :: "rat \<Rightarrow> rat \<Rightarrow> call list" where
  "pass_calls t t' =
     [GetChTime t, DoStepDynamics 0.01, GetChTime t', cout [Str ''time= '', Dbl t'],
      ExportData]"

text \<open>
  The calls of \<open>k\<close> passes that start at time \<open>t\<close>, followed by the next read of the loop
  condition; the time after \<open>k\<close> steps; and the number of passes the loop makes from time
  \<open>t\<close> when it is followed for at most \<open>fuel\<close> passes.
\<close>

primrec loop_calls :: "library \<Rightarrow> nat \<Rightarrow> rat \<Rightarrow> call list" where
  "loop_calls L 0 t = [GetChTime t]"
| "loop_calls L (Suc k) t =
     pass_calls t (stepped_time L 0.01 t) @ loop_calls L k (stepped_time L 0.01 t)"

primrec time_after :: "library \<Rightarrow> nat \<Rightarrow> rat \<Rightarrow> rat" where
  "time_after L 0 t = t"
| "time_after L (Suc k) t = time_after L k (stepped_time L 0.01 t)"

primrec passes :: "library \<Rightarrow> nat \<Rightarrow> rat \<Rightarrow> nat" where
  "passes L 0 t = 0"
| "passes L (Suc fuel) t =
     (if t < 1.5 then Suc (passes L fuel (stepped_time L 0.01 t)) else 0)"

text \<open>The time values of the output lines \<open>time= t\<close> of a run, in order.\<close>

fun printed_time :: "call \<Rightarrow> rat list" where
  "printed_time (cout [Str l, Dbl t]) = (if l = ''time= '' then [t] else [])"
| "printed_time c = []"

definition printed_times :: "call list \<Rightarrow> rat list" where
  "printed_times tr = concat (map printed_time tr)"


text \<open>The export calls of the exporter, and the calls that build the physical system.\<close>

fun is_export :: "call \<Rightarrow> bool" where
  "is_export ExportScript = True"
| "is_export ExportData = True"
| "is_export c = False"

fun scene_call :: "call \<Rightarrow> bool" where
  "scene_call (ChBodyEasyBox x sx sy sz d v c) = True"
| "scene_call (SetPos x p) = True"
| "scene_call (SetFixed x b) = True"
| "scene_call (SetLinVel x v) = True"
| "scene_call (ChLinkMateGeneric x mx my mz rx ry rz) = True"
| "scene_call (Initialize x a b r f1 f2) = True"
| "scene_call (Add x) = True"
| "scene_call c = False"

fun added_item :: "call \<Rightarrow> obj list" where
  "added_item (Add x) = [x]"
| "added_item c = []"

definition added_items :: "call list \<Rightarrow> obj list" where
  "added_items tr = concat (map added_item tr)"

subsection \<open>The physical system a run builds\<close>

text \<open>
  Modelled from the spec: the body and link objects of the library (spec 3 and 4(b): a fixed
  floor body, a pendulum body, a joint at a fixed point); their class declarations are
  not part of the repository. The model keeps what the calls of lines 91 to 126 set. A
  newly constructed body lies at the origin, is at rest and is not fixed (the spec names
  the floor alone as fixed, and a body becomes fixed by \<open>SetFixed(true)\<close>); \<open>SetPos\<close>,
  \<open>SetFixed\<close> and \<open>SetLinVel\<close> overwrite the one field they name. A new link has its
  constrained directions and is attached to no bodies until \<open>Initialize\<close> names the two
  bodies, whether the frames are relative, and the two frames. The source holds every
  object through a shared pointer, so \<open>Add\<close> puts the object itself into the system, and
  the system sees what is set afterwards too.
\<close>

record box_body =
  box_size :: ChVector3d
  box_density :: rat
  visual :: bool
  collide :: bool
  body_pos :: ChVector3d
  body_fixed :: bool
  body_lin_vel :: ChVector3d

record mate_link =
  constrained :: "bool \<times> bool \<times> bool \<times> bool \<times> bool \<times> bool"
  attached :: "(obj \<times> obj \<times> bool \<times> ChFrame \<times> ChFrame) option"

record physical_system =
  bodies :: "obj \<Rightarrow> box_body option"
  links :: "obj \<Rightarrow> mate_link option"
  items :: "obj list"

text \<open>
  Modelled from the spec: what one call does to the objects and to the system, and the
  system a list of calls builds from nothing. Calls that do not construct, set, attach or
  add leave the system as it is.
\<close>

fun apply_call :: "call \<Rightarrow> physical_system \<Rightarrow> physical_system" where
  "apply_call (ChBodyEasyBox x sx sy sz d v c) S =
     S\<lparr>bodies := (bodies S)(x \<mapsto>
         \<lparr>box_size = (sx, sy, sz), box_density = d, visual = v, collide = c,
          body_pos = (0, 0, 0), body_fixed = False, body_lin_vel = (0, 0, 0)\<rparr>)\<rparr>"
| "apply_call (SetPos x p) S =
     S\<lparr>bodies := (bodies S)(x := map_option (\<lambda>b. b\<lparr>body_pos := p\<rparr>) (bodies S x))\<rparr>"
| "apply_call (SetFixed x f) S =
     S\<lparr>bodies := (bodies S)(x := map_option (\<lambda>b. b\<lparr>body_fixed := f\<rparr>) (bodies S x))\<rparr>"
| "apply_call (SetLinVel x v) S =
     S\<lparr>bodies := (bodies S)(x := map_option (\<lambda>b. b\<lparr>body_lin_vel := v\<rparr>) (bodies S x))\<rparr>"
| "apply_call (ChLinkMateGeneric x mx my mz rx ry rz) S =
     S\<lparr>links := (links S)(x \<mapsto>
         \<lparr>constrained = (mx, my, mz, rx, ry, rz), attached = None\<rparr>)\<rparr>"
| "apply_call (Initialize x a b rel f1 f2) S =
     S\<lparr>links := (links S)(x :=
         map_option (\<lambda>l. l\<lparr>attached := Some (a, b, rel, f1, f2)\<rparr>) (links S x))\<rparr>"
| "apply_call (Add x) S = S\<lparr>items := items S @ [x]\<rparr>"
| "apply_call c S = S"

definition system_of :: "call list \<Rightarrow> physical_system" where
  "system_of tr =
     fold apply_call tr \<lparr>bodies = (\<lambda>x. None), links = (\<lambda>x. None), items = []\<rparr>"

subsection \<open>Three libraries to run the program against\<close>

text \<open>
  \<open>double_library\<close> creates the directory, starts the time at 0 and adds the step to the
  time the way a C++ library does with \<open>double\<close> variables: the step it receives is the
  double nearest to the literal, and the sum is rounded to a double. \<open>failing_library\<close>
  does not create the directory; \<open>coarse_library\<close> advances the time by 1 at every step,
  whatever the step size.
\<close>

definition double_library :: library where
  "double_library =
     \<lparr>chrono_output_path = ''out/'',
      directory_created = (\<lambda>p. True),
      CHRONO_DATA_DIR = ''data/'',
      chrono_data_file = (\<lambda>f. ''data/'' @ f),
      initial_time = 0,
      stepped_time = (\<lambda>h t. double (t + double h))\<rparr>"

definition failing_library :: library where
  "failing_library = double_library\<lparr>directory_created := (\<lambda>p. False)\<rparr>"

definition coarse_library :: library where
  "coarse_library = double_library\<lparr>stepped_time := (\<lambda>h t. t + 1)\<rparr>"

section \<open>Properties\<close>

subsection \<open>The loop and the calls it makes\<close>

lemma sim_loop_state:
  "snd (sim_loop L fuel s) =
     \<lparr>ch_time = time_after L (passes L fuel (ch_time s)) (ch_time s),
      calls = calls s @ loop_calls L (passes L fuel (ch_time s)) (ch_time s)\<rparr>"
proof (induction fuel arbitrary: s)
  case 0
  show ?case by (simp add: read_time_def)
next
  case (Suc fuel)
  show ?case
    by (simp add: Suc.IH read_time_def loop_body_def pass_calls_def Let_def)
qed

lemma sim_loop_ended:
  "fst (sim_loop L fuel s) =
     (\<not> time_after L (passes L fuel (ch_time s)) (ch_time s) < 1.5)"
proof (induction fuel arbitrary: s)
  case 0
  show ?case by simp
next
  case (Suc fuel)
  show ?case
    by (simp add: Suc.IH read_time_def loop_body_def Let_def)
qed

lemma passes_le_fuel: "passes L fuel t \<le> fuel"
  by (induction fuel arbitrary: t) auto

lemma sim_loop_more_fuel:
  "fst (sim_loop L fuel s) \<Longrightarrow> sim_loop L (fuel + m) s = sim_loop L fuel s"
proof (induction fuel arbitrary: s)
  case 0
  then show ?case by (cases m) (auto split: if_splits)
next
  case (Suc fuel)
  then show ?case by (auto split: if_splits)
qed

text \<open>A run in which the directory was created: the calls before the loop, then the loop's.\<close>

lemma main_created:
  assumes "directory_created L (out_dir L)"
  shows "main L fuel argc argv =
    (if time_after L (passes L fuel (initial_time L)) (initial_time L) < 1.5
     then None else Some 0,
     before_loop L @ loop_calls L (passes L fuel (initial_time L)) (initial_time L))"
proof -
  let ?s = "\<lparr>ch_time = initial_time L, calls = before_loop L\<rparr>"
  obtain ended s' where run: "sim_loop L fuel ?s = (ended, s')"
    by (cases "sim_loop L fuel ?s")
  have "ended = (\<not> time_after L (passes L fuel (initial_time L)) (initial_time L) < 1.5)"
    using sim_loop_ended [of L fuel ?s] unfolding run by simp
  moreover have "calls s' =
      before_loop L @ loop_calls L (passes L fuel (initial_time L)) (initial_time L)"
    using sim_loop_state [of L fuel ?s] unfolding run by simp
  moreover have "main L fuel argc argv = (if ended then Some 0 else None, calls s')"
    using assms run by (simp add: main_def)
  ultimately show ?thesis by simp
qed

lemma main_not_created:
  assumes "\<not> directory_created L (out_dir L)"
  shows "main L fuel argc argv =
    (Some 1,
     [GetChronoOutputPath (chrono_output_path L),
      create_directory (out_dir L) False,
      cout [Str ''Error creating directory '', Str (out_dir L)]])"
  using assms by (simp add: main_def directory_setup_def)

text \<open>What the loop never calls, and what it always calls the same way.\<close>

lemma loop_calls_no_export_script: "ExportScript \<notin> set (loop_calls L k t)"
  by (induction k arbitrary: t) (simp_all add: pass_calls_def)

lemma loop_calls_no_timer: "ChRealtimeStepTimer \<notin> set (loop_calls L k t)"
  by (induction k arbitrary: t) (simp_all add: pass_calls_def)

lemma loop_calls_no_spin: "Spin x \<notin> set (loop_calls L k t)"
  by (induction k arbitrary: t) (simp_all add: pass_calls_def)

lemma loop_calls_step_size: "DoStepDynamics h \<in> set (loop_calls L k t) \<Longrightarrow> h = 0.01"
  by (induction k arbitrary: t) (auto simp add: pass_calls_def)

lemma loop_calls_no_scene_call: "filter scene_call (loop_calls L k t) = []"
  by (induction k arbitrary: t) (simp_all add: pass_calls_def)

lemma loop_calls_add_nothing: "added_items (loop_calls L k t) = []"
  by (induction k arbitrary: t) (simp_all add: pass_calls_def added_items_def)

text \<open>The calls before the loop, spelt out.\<close>

lemmas before_loop_calls =
  before_loop_def directory_setup_def exporter_setup_def pendulum_scene_def camera_setup_def

text \<open>An element that is not in \<open>xs\<close> occurs in \<open>xs @ ys\<close> only after the whole of \<open>xs\<close>.\<close>

lemma occurs_after_prefix:
  "xs @ ys = pre @ c # post \<Longrightarrow> c \<notin> set xs \<Longrightarrow> \<exists>us. pre = xs @ us"
proof (induction xs arbitrary: pre)
  case Nil
  then show ?case by simp
next
  case (Cons x xs)
  show ?case
  proof (cases pre)
    case Nil
    with Cons.prems show ?thesis by simp
  next
    case (Cons p pre')
    with Cons.prems have "xs @ ys = pre' @ c # post" and "c \<notin> set xs" and "p = x"
      by simp_all
    with Cons.IH [of pre'] obtain us where "pre' = xs @ us" by blast
    with Cons \<open>p = x\<close> show ?thesis by simp
  qed
qed


lemma loop_calls_count_exports: "count_list (loop_calls L k t) ExportData = k"
  by (induction k arbitrary: t) (simp_all add: pass_calls_def)

lemma loop_calls_count_steps: "count_list (loop_calls L k t) (DoStepDynamics 0.01) = k"
  by (induction k arbitrary: t) (simp_all add: pass_calls_def)

lemma before_loop_no_export_data: "count_list (before_loop L) ExportData = 0"
  by (simp add: before_loop_calls)

lemma before_loop_no_step: "count_list (before_loop L) (DoStepDynamics h) = 0"
  by (simp add: before_loop_calls)

text \<open>The calls of \<open>k\<close> passes, pass by pass.\<close>

lemma loop_calls_passes:
  "loop_calls L k t =
    concat (map (\<lambda>i. pass_calls (time_after L i t) (time_after L (Suc i) t)) [0..<k]) @
    [GetChTime (time_after L k t)]"
proof (induction k arbitrary: t)
  case 0
  show ?case by simp
next
  case (Suc k)
  let ?t = "stepped_time L 0.01 t"
  have "[0..<Suc k] = 0 # map Suc [0..<k]"
    by (simp add: upt_conv_Cons map_Suc_upt del: upt_Suc)
  then have "concat (map (\<lambda>i. pass_calls (time_after L i t) (time_after L (Suc i) t))
        [0..<Suc k]) =
      pass_calls t ?t @
      concat (map (\<lambda>i. pass_calls (time_after L i ?t) (time_after L (Suc i) ?t)) [0..<k])"
    by (simp add: comp_def del: upt_Suc)
  then show ?case
    using Suc.IH [of ?t] by (simp del: upt_Suc)
qed

text \<open>More fuel, less fuel.\<close>

lemma passes_more_fuel:
  "\<not> time_after L (passes L fuel t) t < 1.5 \<Longrightarrow> passes L (fuel + m) t = passes L fuel t"
proof (induction fuel arbitrary: t)
  case 0
  then show ?case by (cases m) simp_all
next
  case (Suc fuel)
  then show ?case by (cases "t < 1.5") simp_all
qed

lemma passes_less_fuel:
  "passes L fuel t = fuel \<Longrightarrow> n \<le> fuel \<Longrightarrow> passes L n t = n"
proof (induction fuel arbitrary: n t)
  case 0
  then show ?case by simp
next
  case (Suc fuel)
  show ?case
  proof (cases n)
    case 0
    then show ?thesis by simp
  next
    case (Suc n')
    from Suc.prems(1) have below: "t < 1.5"
      by (cases "t < 1.5") simp_all
    with Suc.prems(1) have "passes L fuel (stepped_time L 0.01 t) = fuel" by simp
    moreover have "n' \<le> fuel" using Suc.prems(2) Suc by simp
    ultimately have "passes L n' (stepped_time L 0.01 t) = n'" by (rule Suc.IH)
    with below Suc show ?thesis by simp
  qed
qed

lemma passes_all_below:
  "passes L fuel t = fuel \<Longrightarrow> n < fuel \<Longrightarrow> time_after L n t < 1.5"
proof (induction fuel arbitrary: n t)
  case 0
  then show ?case by simp
next
  case (Suc fuel)
  from Suc.prems(1) have below: "t < 1.5"
    by (cases "t < 1.5") simp_all
  with Suc.prems(1) have rest: "passes L fuel (stepped_time L 0.01 t) = fuel" by simp
  show ?case
  proof (cases n)
    case 0
    with below show ?thesis by simp
  next
    case (Suc n')
    with Suc.prems(2) have "n' < fuel" by simp
    with rest have "time_after L n' (stepped_time L 0.01 t) < 1.5" by (rule Suc.IH)
    with Suc show ?thesis by simp
  qed
qed










text \<open>Two libraries that step alike run alike.\<close>

lemma passes_cong:
  "\<forall>t. stepped_time L 0.01 t = stepped_time L' 0.01 t \<Longrightarrow> passes L fuel t = passes L' fuel t"
  by (induction fuel arbitrary: t) simp_all

lemma time_after_cong:
  "\<forall>t. stepped_time L 0.01 t = stepped_time L' 0.01 t \<Longrightarrow>
    time_after L k t = time_after L' k t"
  by (induction k arbitrary: t) simp_all


subsection \<open>The run in double arithmetic\<close>

text \<open>Rules that let the simplifier compute \<open>double\<close> on a fraction of two numerals.\<close>

lemma log2_floor_small: "n < 2 \<Longrightarrow> log2_floor n = 0"
  by (simp add: log2_floor.simps)

lemma log2_floor_half: "2 \<le> n \<Longrightarrow> log2_floor n = Suc (log2_floor (n div 2))"
  by (subst log2_floor.simps) simp

lemma floor_rat_numeral: "\<lfloor>numeral a / numeral b :: rat\<rfloor> = numeral a div numeral b"
  using floor_divide_of_int_eq [of "numeral a" "numeral b", where ?'a = rat] by simp

lemmas double_eval =
  double_def exponent_def round_half_even_def pow2_def Let_def
  log2_floor_small log2_floor_half floor_rat_numeral

text \<open>
  The literal \<open>0.01\<close> as a double is a little above one hundredth; 1.5 is a double.
\<close>

lemma double_step: "double (1 / 100) = 5764607523034235 / 576460752303423488"
  by (simp add: double_eval)

lemma double_end_time: "double 1.5 = 1.5"
  by (simp add: double_eval)

lemma double_library_step:
  "stepped_time double_library (1 / 100) t =
     double (t + 5764607523034235 / 576460752303423488)"
  by (simp add: double_library_def double_step)

lemma passes_double:
  "passes double_library (numeral n) t =
     (if t < 3 / 2
      then Suc (passes double_library (pred_numeral n)
                 (double (t + 5764607523034235 / 576460752303423488)))
      else 0)"
  by (simp add: numeral_eq_Suc double_library_step)

lemma time_after_double:
  "time_after double_library (numeral n) t =
     time_after double_library (pred_numeral n)
       (double (t + 5764607523034235 / 576460752303423488))"
  by (simp add: numeral_eq_Suc double_library_step)


text \<open>
  Started at 0 the time stays below 1.5 for 149 steps; the 150th step takes it to
  \<open>6755399441055749 / 2 ^ 52\<close>, which is 1.5000000000000011 to 17 digits. No step
  decreases the time.
\<close>

lemma double_run_passes: "passes double_library 150 0 = 150"
  by (simp add: passes_double double_eval double_library_step)

lemma double_run_end: "time_after double_library 150 0 = 6755399441055749 / 4503599627370496"
  by (simp add: time_after_double double_eval double_library_step)


text \<open>What this gives for every library that steps in this way.\<close>

lemma steps_like_double_library:
  assumes "\<forall>t. stepped_time L 0.01 t = double (t + double 0.01)"
  shows "\<forall>t. stepped_time L 0.01 t = stepped_time double_library 0.01 t"
  using assms by (simp add: double_library_def)

lemma double_passes:
  assumes "\<forall>t. stepped_time L 0.01 t = double (t + double 0.01)"
  shows "passes L fuel 0 = min fuel 150"
proof -
  have same: "passes L fuel 0 = passes double_library fuel 0"
    by (rule passes_cong [OF steps_like_double_library [OF assms]])
  show ?thesis
  proof (cases "fuel \<le> 150")
    case True
    then show ?thesis
      using passes_less_fuel [OF double_run_passes, of fuel] same by simp
  next
    case False
    have "\<not> time_after double_library (passes double_library 150 0) 0 < 1.5"
      by (simp add: double_run_passes double_run_end)
    then have "passes double_library (150 + (fuel - 150)) 0 = passes double_library 150 0"
      by (rule passes_more_fuel)
    with False show ?thesis
      using same by (simp add: double_run_passes)
  qed
qed

lemma double_time_after:
  assumes "\<forall>t. stepped_time L 0.01 t = double (t + double 0.01)"
  shows "time_after L 150 0 = 6755399441055749 / 4503599627370496"
  using time_after_cong [OF steps_like_double_library [OF assms], of 150 0]
  by (simp add: double_run_end)

lemma double_below_end:
  assumes "\<forall>t. stepped_time L 0.01 t = double (t + double 0.01)" and "n < 150"
  shows "time_after L n 0 < 1.5"
proof -
  have "time_after double_library n 0 < 1.5"
    using double_run_passes assms(2) by (rule passes_all_below)
  then show ?thesis
    using time_after_cong [OF steps_like_double_library [OF assms(1)], of n 0] by simp
qed





subsection \<open>The loop under steps of 0.01 in double arithmetic\<close>

text \<open>
  Claim C1. The time is a \<open>double\<close>, so a step that advances it by exactly 0.01 is the
  addition \<open>t + 0.01\<close> of doubles: the literal is the double nearest to one hundredth and
  the sum is rounded to a double. Let every \<open>DoStepDynamics(0.01)\<close> advance the time so.
  Started at time 0, the loop ends after exactly 150 passes: followed for 150 passes or
  more it has ended, with the time at \<open>6755399441055749 / 2 ^ 52\<close> (1.5000000000000011),
  and has made the calls of 150 passes, each with one \<open>ExportData\<close> call, and then the last
  read of the time; followed for fewer passes it has not ended. A run of \<open>main\<close> that
  created the directory and whose system starts at time 0 therefore returns 0 with exactly
  150 \<open>DoStepDynamics\<close> and 150 \<open>ExportData\<close> calls.
\<close>

theorem loop_makes_150_passes:
  assumes "\<forall>t. stepped_time L 0.01 t = double (t + double 0.01)"
  shows "(ch_time s = 0 \<longrightarrow>
      (150 \<le> fuel \<longrightarrow>
         sim_loop L fuel s =
           (True,
            \<lparr>ch_time = 6755399441055749 / 4503599627370496,
             calls = calls s @
               concat (map (\<lambda>i. pass_calls (time_after L i 0) (time_after L (Suc i) 0))
                 [0..<150]) @
               [GetChTime (6755399441055749 / 4503599627370496)]\<rparr>))
      \<and> (fuel < 150 \<longrightarrow> \<not> fst (sim_loop L fuel s)))
    \<and> (initial_time L = 0 \<and> directory_created L (out_dir L) \<and> 150 \<le> fuel \<longrightarrow>
        main L fuel argc argv =
          (Some 0,
           before_loop L @
           concat (map (\<lambda>i. pass_calls (time_after L i 0) (time_after L (Suc i) 0))
             [0..<150]) @
           [GetChTime (6755399441055749 / 4503599627370496)])
        \<and> count_list (snd (main L fuel argc argv)) (DoStepDynamics 0.01) = 150
        \<and> count_list (snd (main L fuel argc argv)) ExportData = 150)
    \<and> count_list (pass_calls t t') ExportData = 1"
proof (intro conjI impI)
  have trace: "loop_calls L 150 0 =
      concat (map (\<lambda>i. pass_calls (time_after L i 0) (time_after L (Suc i) 0)) [0..<150]) @
      [GetChTime (6755399441055749 / 4503599627370496)]"
    using loop_calls_passes [of L 150 0] double_time_after [OF assms] by simp
  {
    assume start: "ch_time s = 0" and enough: "150 \<le> fuel"
    have n: "passes L fuel (ch_time s) = 150"
      using double_passes [OF assms, of fuel] start enough by simp
    have "fst (sim_loop L fuel s)"
      using sim_loop_ended [of L fuel s] double_time_after [OF assms] n start
      by simp
    moreover have "snd (sim_loop L fuel s) =
        \<lparr>ch_time = 6755399441055749 / 4503599627370496, calls = calls s @ loop_calls L 150 0\<rparr>"
      using sim_loop_state [of L fuel s] double_time_after [OF assms] n start
      by simp
    ultimately show "sim_loop L fuel s =
        (True,
         \<lparr>ch_time = 6755399441055749 / 4503599627370496,
          calls = calls s @
            concat (map (\<lambda>i. pass_calls (time_after L i 0) (time_after L (Suc i) 0))
              [0..<150]) @
            [GetChTime (6755399441055749 / 4503599627370496)]\<rparr>)"
      unfolding trace by (simp add: prod_eq_iff)
  }
  {
    assume start: "ch_time s = 0" and short: "fuel < 150"
    have "passes L fuel (ch_time s) = fuel"
      using double_passes [OF assms, of fuel] start short by simp
    moreover have "time_after L fuel 0 < 1.5"
      using assms short by (rule double_below_end)
    ultimately show "\<not> fst (sim_loop L fuel s)"
      using sim_loop_ended [of L fuel s] start by simp
  }
  {
    assume run: "initial_time L = 0 \<and> directory_created L (out_dir L) \<and> 150 \<le> fuel"
    have n: "passes L fuel (initial_time L) = 150"
      using double_passes [OF assms, of fuel] run by simp
    have result: "main L fuel argc argv = (Some 0, before_loop L @ loop_calls L 150 0)"
      using run main_created [of L fuel argc argv] n double_time_after [OF assms]
      by simp
    then show "main L fuel argc argv =
        (Some 0,
         before_loop L @
         concat (map (\<lambda>i. pass_calls (time_after L i 0) (time_after L (Suc i) 0))
           [0..<150]) @
         [GetChTime (6755399441055749 / 4503599627370496)])"
      unfolding trace .
    show "count_list (snd (main L fuel argc argv)) (DoStepDynamics 0.01) = 150"
      unfolding result
      using before_loop_no_step [of L "0.01"] loop_calls_count_steps [of L 150 0] by simp
    show "count_list (snd (main L fuel argc argv)) ExportData = 150"
      unfolding result
      using before_loop_no_export_data [of L] loop_calls_count_exports [of L 150 0] by simp
  }
  show "count_list (pass_calls t t') ExportData = 1"
    by (simp add: pass_calls_def)
qed

theorem loop_makes_150_passes_witness:
  "fst (main double_library 150 0 []) = Some 0
   \<and> count_list (snd (main double_library 150 0 [])) ExportData = 150
   \<and> \<not> fst (sim_loop double_library 149 \<lparr>ch_time = 0, calls = []\<rparr>)"
proof -
  have steps: "\<forall>t. stepped_time double_library 0.01 t = double (t + double 0.01)"
    by (simp add: double_library_def)
  have start: "initial_time double_library = 0
      \<and> directory_created double_library (out_dir double_library) \<and> (150 :: nat) \<le> 150"
    by (simp add: double_library_def)
  note run = mp [OF conjunct1 [OF conjunct2 [OF loop_makes_150_passes
        [OF steps, of "\<lparr>ch_time = 0, calls = []\<rparr>" 150 0 "[]"]]] start]
  have "fst (main double_library 150 0 []) = Some 0"
    using conjunct1 [OF run] by simp
  moreover have "count_list (snd (main double_library 150 0 [])) ExportData = 150"
    by (rule conjunct2 [OF conjunct2 [OF run]])
  moreover have "\<not> fst (sim_loop double_library 149 \<lparr>ch_time = 0, calls = []\<rparr>)"
    using conjunct1 [OF loop_makes_150_passes
        [OF steps, of "\<lparr>ch_time = 0, calls = []\<rparr>" 149 0 "[]"]]
    by simp
  ultimately show ?thesis by blast
qed

subsection \<open>Directory creation fails\<close>

text \<open>
  Claim C2. If \<open>filesystem::create_directory\<close> returns false for the output directory,
  \<open>main\<close> prints the error line that names the directory, returns 1 and does nothing else:
  the run consists of the path query, the failed creation and the error line, so it holds no
  call that builds the scene, no simulation step, no time line and no export call. This
  holds however long the run is followed.
\<close>

theorem directory_failure_stops_main:
  assumes "\<not> directory_created L (out_dir L)"
  shows "main L fuel argc argv =
      (Some 1,
       [GetChronoOutputPath (chrono_output_path L),
        create_directory (out_dir L) False,
        cout [Str ''Error creating directory '', Str (out_dir L)]])
    \<and> filter scene_call (snd (main L fuel argc argv)) = []
    \<and> filter is_export (snd (main L fuel argc argv)) = []
    \<and> printed_times (snd (main L fuel argc argv)) = []
    \<and> (\<forall>h. DoStepDynamics h \<notin> set (snd (main L fuel argc argv)))"
  using assms by (simp add: main_not_created printed_times_def)

theorem directory_failure_stops_main_witness:
  "main failing_library 7 2 [''my_example'', ''x''] =
     (Some 1,
      [GetChronoOutputPath ''out/'',
       create_directory ''out/POVRAY_1'' False,
       cout [Str ''Error creating directory '', Str ''out/POVRAY_1'']])"
  using directory_failure_stops_main [of failing_library 7 2 "[''my_example'', ''x'']"]
  by (simp add: failing_library_def double_library_def out_dir_def)

subsection \<open>Order of the directory creation and the exports\<close>

lemma failed_run_no_export:
  "c \<in> set [GetChronoOutputPath p, create_directory d False, cout xs] \<Longrightarrow> \<not> is_export c"
  by fastforce

text \<open>
  Claim C3. In every run, however far it is followed, each export call (the
  \<open>ExportScript\<close> call and every \<open>ExportData\<close> call) comes after the call of
  \<open>create_directory\<close> for the output directory, and that call has returned true.
\<close>

theorem directory_created_before_export:
  assumes "snd (main L fuel argc argv) = pre @ c # post" and "is_export c"
  shows "directory_created L (out_dir L) \<and> create_directory (out_dir L) True \<in> set pre"
proof (cases "directory_created L (out_dir L)")
  case False
  have "snd (main L fuel argc argv) = [GetChronoOutputPath (chrono_output_path L),
      create_directory (out_dir L) False,
      cout [Str ''Error creating directory '', Str (out_dir L)]]"
    using False by (simp add: main_not_created)
  with assms(1) have "c \<in> set [GetChronoOutputPath (chrono_output_path L),
      create_directory (out_dir L) False,
      cout [Str ''Error creating directory '', Str (out_dir L)]]"
    by (metis in_set_conv_decomp)
  then have "\<not> is_export c" by (rule failed_run_no_export)
  with assms(2) show ?thesis by contradiction
next
  case True
  let ?rest = "exporter_setup L @ pendulum_scene L @ camera_setup @
    [ChRealtimeStepTimer, ExportScript] @
    loop_calls L (passes L fuel (initial_time L)) (initial_time L)"
  have run: "snd (main L fuel argc argv) = directory_setup L @ ?rest"
    using True by (simp add: main_created before_loop_def)
  have split: "directory_setup L @ ?rest = pre @ c # post"
    using assms(1) unfolding run .
  have "c \<notin> set (directory_setup L)"
    using assms(2) by (auto simp add: directory_setup_def)
  with split have "\<exists>us. pre = directory_setup L @ us"
    by (rule occurs_after_prefix)
  then obtain us where "pre = directory_setup L @ us" by blast
  with True show ?thesis by (simp add: directory_setup_def)
qed

theorem directory_created_before_export_witness:
  "create_directory ''out/POVRAY_1'' True \<in>
     set (directory_setup double_library @ exporter_setup double_library @
          pendulum_scene double_library @ camera_setup @ [ChRealtimeStepTimer])"
  using directory_created_before_export [of double_library 0 0 "[]"
      "directory_setup double_library @ exporter_setup double_library @
       pendulum_scene double_library @ camera_setup @ [ChRealtimeStepTimer]"
      ExportScript "[GetChTime 0]"]
  by (simp add: main_def before_loop_def read_time_def double_library_def out_dir_def)

subsection \<open>The printed times\<close>




subsection \<open>The items of the physical system\<close>

lemma loop_calls_build_nothing: "fold apply_call (loop_calls L k t) S = S"
  by (induction k arbitrary: t) (simp_all add: pass_calls_def)

text \<open>
  Claim C5, amended. In every run in which the output directory was created, the calls that
  build the physical system are, in this order: the floor box of dimensions 10 x 2 x 10 and
  density 3000 is constructed, placed at (0, -2, 0), marked fixed and added; the pendulum
  box of dimensions 0.5 x 2 x 0.5 and density 3000 is constructed, placed at (0, 3, 0),
  given the linear velocity (1, 0, 0) and added; the \<open>ChLinkMateGeneric\<close> that constrains
  x, y and z and none of the rotations is constructed, initialised from the pendulum to the
  floor with both frames at the absolute point (0, 4, 0), and added. The system so built
  holds exactly these three items, in this order: the floor, fixed; the pendulum, not
  fixed (no run calls \<open>SetFixed\<close> on it); the link. In a run in which the directory was
  not created nothing is constructed or added.
\<close>

theorem scene_items_when_created:
  "(directory_created L (out_dir L) \<longrightarrow>
      filter scene_call (snd (main L fuel argc argv)) =
        [ChBodyEasyBox floorBody 10 2 10 3000 True False,
         SetPos floorBody (0, - 2, 0),
         SetFixed floorBody True,
         Add floorBody,
         ChBodyEasyBox pendulumBody 0.5 2 0.5 3000 True False,
         SetPos pendulumBody (0, 3, 0),
         SetLinVel pendulumBody (1, 0, 0),
         Add pendulumBody,
         ChLinkMateGeneric sphericalLink True True True False False False,
         Initialize sphericalLink pendulumBody floorBody False
           (ChFrame (0, 4, 0)) (ChFrame (0, 4, 0)),
         Add sphericalLink]
      \<and> added_items (snd (main L fuel argc argv)) = [floorBody, pendulumBody, sphericalLink]
      \<and> items (system_of (snd (main L fuel argc argv))) =
          [floorBody, pendulumBody, sphericalLink]
      \<and> bodies (system_of (snd (main L fuel argc argv))) floorBody =
          Some \<lparr>box_size = (10, 2, 10), box_density = 3000, visual = True, collide = False,
                body_pos = (0, - 2, 0), body_fixed = True, body_lin_vel = (0, 0, 0)\<rparr>
      \<and> bodies (system_of (snd (main L fuel argc argv))) pendulumBody =
          Some \<lparr>box_size = (0.5, 2, 0.5), box_density = 3000, visual = True, collide = False,
                body_pos = (0, 3, 0), body_fixed = False, body_lin_vel = (1, 0, 0)\<rparr>
      \<and> links (system_of (snd (main L fuel argc argv))) sphericalLink =
          Some \<lparr>constrained = (True, True, True, False, False, False),
                attached = Some (pendulumBody, floorBody, False,
                  ChFrame (0, 4, 0), ChFrame (0, 4, 0))\<rparr>)
   \<and> (\<not> directory_created L (out_dir L) \<longrightarrow>
        filter scene_call (snd (main L fuel argc argv)) = []
        \<and> added_items (snd (main L fuel argc argv)) = []
        \<and> items (system_of (snd (main L fuel argc argv))) = [])
   \<and> (\<forall>b. SetFixed pendulumBody b \<notin> set (snd (main L fuel argc argv)))"
proof (cases "directory_created L (out_dir L)")
  case False
  then show ?thesis by (simp add: main_not_created added_items_def system_of_def)
next
  case True
  let ?loop = "loop_calls L (passes L fuel (initial_time L)) (initial_time L)"
  have calls: "snd (main L fuel argc argv) = before_loop L @ ?loop"
    using True main_created [of L fuel argc argv] by simp
  have scene: "filter scene_call (snd (main L fuel argc argv)) =
      filter scene_call (before_loop L)"
    unfolding calls by (simp add: loop_calls_no_scene_call)
  have added: "added_items (snd (main L fuel argc argv)) = added_items (before_loop L)"
    unfolding calls using loop_calls_add_nothing [of L]
    by (simp add: added_items_def)
  have built: "system_of (snd (main L fuel argc argv)) = system_of (before_loop L)"
    unfolding calls by (simp add: system_of_def loop_calls_build_nothing)
  have "SetFixed pendulumBody b \<notin> set (filter scene_call (snd (main L fuel argc argv)))"
    for b
    unfolding scene by (simp add: before_loop_calls)
  then have unfixed: "\<forall>b. SetFixed pendulumBody b \<notin> set (snd (main L fuel argc argv))"
    by simp
  have "filter scene_call (before_loop L) =
      [ChBodyEasyBox floorBody 10 2 10 3000 True False,
       SetPos floorBody (0, - 2, 0),
       SetFixed floorBody True,
       Add floorBody,
       ChBodyEasyBox pendulumBody 0.5 2 0.5 3000 True False,
       SetPos pendulumBody (0, 3, 0),
       SetLinVel pendulumBody (1, 0, 0),
       Add pendulumBody,
       ChLinkMateGeneric sphericalLink True True True False False False,
       Initialize sphericalLink pendulumBody floorBody False
         (ChFrame (0, 4, 0)) (ChFrame (0, 4, 0)),
       Add sphericalLink]"
    by (simp add: before_loop_calls)
  moreover have "added_items (before_loop L) = [floorBody, pendulumBody, sphericalLink]"
    by (simp add: before_loop_calls added_items_def)
  moreover have "items (system_of (before_loop L)) = [floorBody, pendulumBody, sphericalLink]"
    by (simp add: before_loop_calls system_of_def)
  moreover have "bodies (system_of (before_loop L)) floorBody =
      Some \<lparr>box_size = (10, 2, 10), box_density = 3000, visual = True, collide = False,
            body_pos = (0, - 2, 0), body_fixed = True, body_lin_vel = (0, 0, 0)\<rparr>"
    by (simp add: before_loop_calls system_of_def)
  moreover have "bodies (system_of (before_loop L)) pendulumBody =
      Some \<lparr>box_size = (0.5, 2, 0.5), box_density = 3000, visual = True, collide = False,
            body_pos = (0, 3, 0), body_fixed = False, body_lin_vel = (1, 0, 0)\<rparr>"
    by (simp add: before_loop_calls system_of_def)
  moreover have "links (system_of (before_loop L)) sphericalLink =
      Some \<lparr>constrained = (True, True, True, False, False, False),
            attached = Some (pendulumBody, floorBody, False,
              ChFrame (0, 4, 0), ChFrame (0, 4, 0))\<rparr>"
    by (simp add: before_loop_calls system_of_def)
  ultimately show ?thesis
    using True unfixed unfolding scene added built by simp
qed

theorem scene_items_when_created_witness:
  "added_items (snd (main double_library 1 0 [])) = [floorBody, pendulumBody, sphericalLink]
   \<and> map_option body_fixed (bodies (system_of (snd (main double_library 1 0 []))) pendulumBody)
       = Some False
   \<and> added_items (snd (main failing_library 1 0 [])) = []"
  using scene_items_when_created [of double_library 1 0 "[]"]
    scene_items_when_created [of failing_library 1 0 "[]"]
  by (simp add: double_library_def failing_library_def)

text \<open>
  The run that does not create the directory returns 1 and adds no item to the system.
\<close>

theorem no_items_added_counterexample:
  "fst (main failing_library 0 0 []) = Some 1
   \<and> added_items (snd (main failing_library 0 0 [])) = []"
  by (simp add: main_def directory_setup_def added_items_def failing_library_def
      double_library_def)

subsection \<open>The export script\<close>

text \<open>
  Claim C6, amended. In every run in which the output directory was created,
  \<open>ExportScript\<close> is called exactly once: after \<open>SetCamera\<close> and \<open>AddAll\<close> (only the
  construction of the timer lies between) and before every \<open>ExportData\<close> call. In a run
  in which the directory was not created, \<open>ExportScript\<close> is not called at all.
\<close>

theorem export_script_once_when_created:
  "(directory_created L (out_dir L) \<longrightarrow>
      (\<exists>pre post.
         snd (main L fuel argc argv) =
           pre @ [SetCamera (0, 3, - 10) (0, 1, 0) 50, AddAll, ChRealtimeStepTimer,
                  ExportScript] @ post
         \<and> ExportScript \<notin> set pre \<and> ExportData \<notin> set pre
         \<and> ExportScript \<notin> set post)
      \<and> count_list (snd (main L fuel argc argv)) ExportScript = 1)
   \<and> (\<not> directory_created L (out_dir L) \<longrightarrow>
        ExportScript \<notin> set (snd (main L fuel argc argv)))"
proof (intro conjI impI)
  assume created: "directory_created L (out_dir L)"
  let ?pre = "directory_setup L @ exporter_setup L @ pendulum_scene L @
    [ChCamera camera, SetAngle camera 50, SetPosition camera (0, 3, - 10),
     SetAimPoint camera (0, 1, 0), SetUpVector camera (0, - 1, 0)]"
  let ?post = "loop_calls L (passes L fuel (initial_time L)) (initial_time L)"
  have run: "snd (main L fuel argc argv) =
      ?pre @ [SetCamera (0, 3, - 10) (0, 1, 0) 50, AddAll, ChRealtimeStepTimer,
              ExportScript] @ ?post"
    using created main_created [of L fuel argc argv] by (simp add: before_loop_calls)
  have pre: "ExportScript \<notin> set ?pre \<and> ExportData \<notin> set ?pre"
    by (simp add: before_loop_calls)
  have post: "ExportScript \<notin> set ?post"
    by (rule loop_calls_no_export_script)
  from run pre post
  show "\<exists>pre post.
      snd (main L fuel argc argv) =
        pre @ [SetCamera (0, 3, - 10) (0, 1, 0) 50, AddAll, ChRealtimeStepTimer,
               ExportScript] @ post
      \<and> ExportScript \<notin> set pre \<and> ExportData \<notin> set pre \<and> ExportScript \<notin> set post"
    by blast
  from pre post show "count_list (snd (main L fuel argc argv)) ExportScript = 1"
    unfolding run by simp
next
  assume "\<not> directory_created L (out_dir L)"
  then show "ExportScript \<notin> set (snd (main L fuel argc argv))"
    by (simp add: main_not_created)
qed

theorem export_script_once_when_created_witness:
  "count_list (snd (main double_library 3 0 [])) ExportScript = 1
   \<and> ExportScript \<notin> set (snd (main failing_library 3 0 []))"
  using export_script_once_when_created [of double_library 3 0 "[]"]
    export_script_once_when_created [of failing_library 3 0 "[]"]
  by (simp add: failing_library_def double_library_def)

text \<open>
  The run that does not create the directory returns 1 without a call of \<open>ExportScript\<close>.
\<close>

theorem export_script_not_called_counterexample:
  "fst (main failing_library 0 0 []) = Some 1
   \<and> count_list (snd (main failing_library 0 0 [])) ExportScript = 0"
  by (simp add: main_def directory_setup_def failing_library_def double_library_def)

subsection \<open>Command-line arguments\<close>

text \<open>
  Claim C7. \<open>main\<close> never reads \<open>argc\<close> or \<open>argv\<close>: two runs against the same library
  behaviour, followed equally far, make the same calls, print the same lines and return the
  same exit status whatever the arguments are.
\<close>

theorem main_ignores_arguments:
  "main L fuel argc argv = main L fuel argc' argv'"
  by (simp add: main_def)

theorem main_ignores_arguments_witness:
  "main coarse_library 2 1 [''my_example''] =
   main coarse_library 2 3 [''my_example'', ''-v'', ''out'']"
  using main_ignores_arguments [of coarse_library 2 1 "[''my_example'']" 3
      "[''my_example'', ''-v'', ''out'']"]
  by simp

subsection \<open>The loop under steps of at least 0.01\<close>

lemma passes_bound:
  assumes "\<forall>t. t + 0.01 \<le> stepped_time L 0.01 t"
  shows "1.5 - of_nat k / 100 \<le> t \<Longrightarrow> passes L fuel t \<le> k"
proof (induction fuel arbitrary: k t)
  case 0
  show ?case by simp
next
  case (Suc fuel)
  show ?case
  proof (cases "t < 1.5")
    case False
    then show ?thesis by simp
  next
    case True
    with Suc.prems obtain k' where k: "k = Suc k'"
      by (cases k) simp_all
    have "t + 1 / 100 \<le> stepped_time L 0.01 t"
      using assms by simp
    with Suc.prems k have "1.5 - of_nat k' / 100 \<le> stepped_time L 0.01 t"
      by (simp add: field_simps)
    then have "passes L fuel (stepped_time L 0.01 t) \<le> k'"
      by (rule Suc.IH)
    with True k show ?thesis by simp
  qed
qed

lemma loop_ends_with_enough_fuel:
  assumes "\<forall>t. t + 0.01 \<le> stepped_time L 0.01 t"
  shows "1.5 - of_nat k / 100 \<le> t \<Longrightarrow> k \<le> fuel \<Longrightarrow>
    \<not> time_after L (passes L fuel t) t < 1.5"
proof (induction fuel arbitrary: k t)
  case 0
  then show ?case by simp
next
  case (Suc fuel)
  show ?case
  proof (cases "t < 1.5")
    case False
    then show ?thesis by simp
  next
    case True
    with Suc.prems obtain k' where k: "k = Suc k'"
      by (cases k) simp_all
    have "t + 1 / 100 \<le> stepped_time L 0.01 t"
      using assms by simp
    with Suc.prems k have "1.5 - of_nat k' / 100 \<le> stepped_time L 0.01 t"
      by (simp add: field_simps)
    moreover have "k' \<le> fuel"
      using Suc.prems k by simp
    ultimately have
      "\<not> time_after L (passes L fuel (stepped_time L 0.01 t)) (stepped_time L 0.01 t) < 1.5"
      by (rule Suc.IH)
    with True show ?thesis by simp
  qed
qed

text \<open>
  Claim C8. Let the simulated time start at 0 and every \<open>DoStepDynamics(0.01)\<close> increase
  it by at least 0.01. Then the loop has ended after at most 150 passes, and following it
  further changes nothing; so \<open>main\<close> returns an exit status in every such run, whether
  the directory was created or not, with at most 150 steps and 150 data exports.
\<close>

theorem loop_ends_within_150_passes:
  assumes "\<forall>t. t + 0.01 \<le> stepped_time L 0.01 t"
  shows "(ch_time s = 0 \<longrightarrow>
      fst (sim_loop L 150 s) \<and> (150 \<le> fuel \<longrightarrow> sim_loop L fuel s = sim_loop L 150 s))
    \<and> (initial_time L = 0 \<and> 150 \<le> fuel \<longrightarrow>
        (\<exists>status. fst (main L fuel argc argv) = Some status)
        \<and> main L fuel argc argv = main L 150 argc argv
        \<and> count_list (snd (main L fuel argc argv)) (DoStepDynamics 0.01) \<le> 150
        \<and> count_list (snd (main L fuel argc argv)) ExportData \<le> 150)"
proof -
  have ended: "fst (sim_loop L 150 s')" if "ch_time s' = 0" for s'
    using loop_ends_with_enough_fuel [OF assms, of 150 0 150] sim_loop_ended [of L 150 s'] that
    by simp
  have same: "sim_loop L fuel s' = sim_loop L 150 s'" if "ch_time s' = 0" "150 \<le> fuel" for s'
    using sim_loop_more_fuel [OF ended [OF that(1)], of "fuel - 150"] that(2) by simp
  have loop: "ch_time s = 0 \<longrightarrow>
      fst (sim_loop L 150 s) \<and> (150 \<le> fuel \<longrightarrow> sim_loop L fuel s = sim_loop L 150 s)"
    using ended same by blast
  have whole: "(\<exists>status. fst (main L fuel argc argv) = Some status)
      \<and> main L fuel argc argv = main L 150 argc argv
      \<and> count_list (snd (main L fuel argc argv)) (DoStepDynamics 0.01) \<le> 150
      \<and> count_list (snd (main L fuel argc argv)) ExportData \<le> 150"
    if run: "initial_time L = 0 \<and> 150 \<le> fuel"
  proof (cases "directory_created L (out_dir L)")
    case False
    then show ?thesis by (simp add: main_not_created)
  next
    case True
    let ?s = "\<lparr>ch_time = initial_time L, calls = before_loop L\<rparr>"
    have s0: "ch_time ?s = 0" using run by simp
    have eq: "sim_loop L fuel ?s = sim_loop L 150 ?s"
      using same [OF s0] run by simp
    have "fst (sim_loop L fuel ?s)"
      using ended [OF s0] eq by simp
    then have status: "fst (main L fuel argc argv) = Some 0"
      using True by (simp add: main_def case_prod_beta)
    have equal: "main L fuel argc argv = main L 150 argc argv"
      using True eq by (simp add: main_def)
    let ?k = "passes L fuel (initial_time L)"
    have k: "?k \<le> 150"
      using passes_bound [OF assms, of 150 0 fuel] run by simp
    have calls: "snd (main L fuel argc argv) = before_loop L @ loop_calls L ?k (initial_time L)"
      using True main_created [of L fuel argc argv] by simp
    have "count_list (snd (main L fuel argc argv)) (DoStepDynamics 0.01) = ?k"
      unfolding calls
      using before_loop_no_step [of L "0.01"] loop_calls_count_steps [of L ?k "initial_time L"]
      by simp
    moreover have "count_list (snd (main L fuel argc argv)) ExportData = ?k"
      unfolding calls
      using before_loop_no_export_data [of L]
        loop_calls_count_exports [of L ?k "initial_time L"]
      by simp
    ultimately show ?thesis
      using status equal k by simp
  qed
  from loop whole show ?thesis by blast
qed

theorem loop_ends_within_150_passes_witness:
  "(\<exists>status. fst (main coarse_library 200 0 []) = Some status)
   \<and> main coarse_library 200 0 [] = main coarse_library 150 0 []
   \<and> fst (sim_loop coarse_library 150 \<lparr>ch_time = 0, calls = []\<rparr>)"
proof -
  have grows: "\<forall>t. t + 0.01 \<le> stepped_time coarse_library 0.01 t"
    by (simp add: coarse_library_def double_library_def)
  have start: "initial_time coarse_library = 0 \<and> (150 :: nat) \<le> 200"
    by (simp add: coarse_library_def double_library_def)
  note all = loop_ends_within_150_passes
    [OF grows, of "\<lparr>ch_time = 0, calls = []\<rparr>" 200 0 "[]"]
  note run = mp [OF conjunct2 [OF all] start]
  have "fst (sim_loop coarse_library 150 \<lparr>ch_time = 0, calls = []\<rparr>)"
    using conjunct1 [OF all] by simp
  with run show ?thesis by blast
qed

subsection \<open>Exit status\<close>

text \<open>
  Claim C9. With every library call returning, the exit status of \<open>main\<close> is 1 when
  \<open>create_directory\<close> returns false, and 0 otherwise: 0 is returned as soon as the loop
  has ended, and the loop does end, within 150 passes, in the fixed-step run (the time
  starts at 0 and every \<open>DoStepDynamics(0.01)\<close> adds 0.01 to it in double arithmetic) and
  whenever every step advances the time by at least 0.01. No run returns any other status.
\<close>

theorem exit_status_decided_by_directory:
  "(\<not> directory_created L (out_dir L) \<longrightarrow> fst (main L fuel argc argv) = Some 1)
   \<and> (directory_created L (out_dir L) \<longrightarrow>
        fst (main L fuel argc argv) =
          (if fst (sim_loop L fuel \<lparr>ch_time = initial_time L, calls = before_loop L\<rparr>)
           then Some 0 else None))
   \<and> (directory_created L (out_dir L)
        \<and> fst (sim_loop L n \<lparr>ch_time = initial_time L, calls = before_loop L\<rparr>)
        \<and> n \<le> fuel \<longrightarrow>
        fst (main L fuel argc argv) = Some 0)
   \<and> (directory_created L (out_dir L) \<and> initial_time L = 0
        \<and> (\<forall>t. stepped_time L 0.01 t = double (t + double 0.01)) \<and> 150 \<le> fuel \<longrightarrow>
        fst (main L fuel argc argv) = Some 0)
   \<and> (directory_created L (out_dir L) \<and> initial_time L = 0
        \<and> (\<forall>t. t + 0.01 \<le> stepped_time L 0.01 t) \<and> 150 \<le> fuel \<longrightarrow>
        fst (main L fuel argc argv) = Some 0)
   \<and> (\<forall>status. fst (main L fuel argc argv) = Some status \<longrightarrow>
        status = (if directory_created L (out_dir L) then 0 else 1))"
proof -
  let ?s = "\<lparr>ch_time = initial_time L, calls = before_loop L\<rparr>"
  have status: "fst (main L fuel argc argv) = (if fst (sim_loop L fuel ?s) then Some 0 else None)"
    if "directory_created L (out_dir L)"
    using that by (simp add: main_def case_prod_beta)
  have ended: "fst (main L fuel argc argv) = Some 0"
    if "directory_created L (out_dir L) \<and> fst (sim_loop L n ?s) \<and> n \<le> fuel" for n
  proof -
    from that have "sim_loop L (n + (fuel - n)) ?s = sim_loop L n ?s"
      using sim_loop_more_fuel [of L n ?s "fuel - n"] by simp
    with that have "fst (sim_loop L fuel ?s)" by simp
    with that status show ?thesis by simp
  qed
  have fixed_step: "fst (main L fuel argc argv) = Some 0"
    if run: "directory_created L (out_dir L) \<and> initial_time L = 0
      \<and> (\<forall>t. stepped_time L 0.01 t = double (t + double 0.01)) \<and> 150 \<le> fuel"
  proof -
    from run have steps: "\<forall>t. stepped_time L 0.01 t = double (t + double 0.01)" by simp
    have "passes L 150 0 = 150"
      using double_passes [OF steps, of 150] by simp
    then have "fst (sim_loop L 150 ?s)"
      using sim_loop_ended [of L 150 ?s] double_time_after [OF steps] run by simp
    with run show ?thesis using ended [of 150] by simp
  qed
  have growing: "fst (main L fuel argc argv) = Some 0"
    if run: "directory_created L (out_dir L) \<and> initial_time L = 0
      \<and> (\<forall>t. t + 0.01 \<le> stepped_time L 0.01 t) \<and> 150 \<le> fuel"
  proof -
    from run have grows: "\<forall>t. t + 0.01 \<le> stepped_time L 0.01 t" by simp
    have "fst (sim_loop L 150 ?s)"
      using loop_ends_with_enough_fuel [OF grows, of 150 0 150] sim_loop_ended [of L 150 ?s] run
      by simp
    with run show ?thesis using ended [of 150] by simp
  qed
  have only: "status = (if directory_created L (out_dir L) then 0 else 1)"
    if "fst (main L fuel argc argv) = Some status" for status
    using that by (simp add: main_def case_prod_beta split: if_splits)
  have failed: "fst (main L fuel argc argv) = Some 1" if "\<not> directory_created L (out_dir L)"
    using that by (simp add: main_def)
  from failed status ended fixed_step growing only show ?thesis by blast
qed

theorem exit_status_decided_by_directory_witness:
  "fst (main failing_library 2 0 []) = Some 1 \<and> fst (main double_library 150 0 []) = Some 0"
proof -
  have failing: "\<not> directory_created failing_library (out_dir failing_library)"
    by (simp add: failing_library_def double_library_def)
  have run: "directory_created double_library (out_dir double_library)
      \<and> initial_time double_library = 0
      \<and> (\<forall>t. stepped_time double_library 0.01 t = double (t + double 0.01))
      \<and> (150 :: nat) \<le> 150"
    by (simp add: double_library_def)
  have "fst (main failing_library 2 0 []) = Some 1"
    using conjunct1 [OF exit_status_decided_by_directory [of failing_library 2 0 "[]"]] failing
    by (rule mp)
  moreover have "fst (main double_library 150 0 []) = Some 0"
    using conjunct1 [OF conjunct2 [OF conjunct2 [OF conjunct2
      [OF exit_status_decided_by_directory [of double_library 150 0 "[]"]]]]] run
    by (rule mp)
  ultimately show ?thesis by blast
qed

subsection \<open>The timer and the step size\<close>

text \<open>
  Claim C10. The timer declared in line 158 and the variable \<open>step_size\<close> (0.005) of line
  159 are not used: no run calls \<open>Spin\<close>, the timer is constructed at most once and never
  touched again, and every \<open>DoStepDynamics\<close> call has the literal step 0.01, which is not
  \<open>step_size\<close>.
\<close>

theorem timer_and_step_size_unused:
  "(\<forall>x. Spin x \<notin> set (snd (main L fuel argc argv)))
   \<and> (\<forall>h. DoStepDynamics h \<in> set (snd (main L fuel argc argv)) \<longrightarrow>
         h = 0.01 \<and> h \<noteq> step_size)
   \<and> count_list (snd (main L fuel argc argv)) ChRealtimeStepTimer \<le> 1"
proof (cases "directory_created L (out_dir L)")
  case False
  then show ?thesis by (simp add: main_not_created)
next
  case True
  let ?post = "loop_calls L (passes L fuel (initial_time L)) (initial_time L)"
  have run: "snd (main L fuel argc argv) = before_loop L @ ?post"
    using True main_created [of L fuel argc argv] by simp
  have "Spin x \<notin> set (before_loop L @ ?post)" for x
    using loop_calls_no_spin [of x L] by (simp add: before_loop_calls)
  moreover have "h = 0.01 \<and> h \<noteq> step_size"
    if "DoStepDynamics h \<in> set (before_loop L @ ?post)" for h
  proof -
    from that have "DoStepDynamics h \<in> set ?post"
      by (simp add: before_loop_calls)
    then have "h = 0.01" by (rule loop_calls_step_size)
    then show ?thesis by (simp add: step_size_def)
  qed
  moreover have "count_list (before_loop L @ ?post) ChRealtimeStepTimer \<le> 1"
    using loop_calls_no_timer [of L] by (simp add: before_loop_calls)
  ultimately show ?thesis unfolding run by blast
qed

theorem timer_and_step_size_unused_witness:
  "DoStepDynamics 0.01 \<in> set (snd (main coarse_library 2 0 []))
   \<and> (0.01 :: rat) \<noteq> step_size
   \<and> Spin step_size \<notin> set (snd (main coarse_library 2 0 []))"
proof -
  have "DoStepDynamics 0.01 \<in> set (snd (main coarse_library 2 0 []))"
    by (simp add: main_def coarse_library_def double_library_def numeral_2_eq_2
        loop_body_def read_time_def split: prod.splits)
  then show ?thesis
    using timer_and_step_size_unused [of coarse_library 2 0 "[]"] by blast
qed

end
